theory Spec2Isabelle
  imports Complex_Main "HOL-Library.Word"
begin

unbundle bit_operations_syntax

section \<open>The live session of components/LiveSession.tsx\<close>

text \<open>
  The component is a React function component whose state lives in \<open>useState\<close> cells and
  \<open>useRef\<close> boxes, and whose behaviour is a handful of callbacks run one at a time by the
  browser's event loop. The embedding keeps one record for the cells and boxes, and turns
  each callback into a function from the state before the event to the state after it.
  Everything a callback does to the browser (creating or closing an audio context,
  starting or stopping a source node, sending on the transport, logging) is appended to
  the field \<open>effects\<close>, in the order of the calls.

  JavaScript numbers are modelled as \<open>real\<close>. A callback runs until it
  returns or reaches an \<open>await\<close>; the two \<open>async\<close> functions, \<open>startSession\<close> and
  \<open>onmessage\<close>, are therefore modelled in two halves each, before and after their one
  \<open>await\<close>, and other callbacks may run between the halves. Objects created by the browser (audio
  contexts, source nodes, sessions, timers) are named by natural numbers taken from the
  counter \<open>fresh\<close>; the tracks of a media stream are named by the environment.
\<close>

subsection \<open>Data\<close>

type_synonym number = real

text \<open>An \<open>AudioBuffer\<close>: only its duration (in seconds) is read by the component.\<close>

record audio_buffer =
  duration :: number

text \<open>The parts of \<open>LiveServerMessage\<close> that \<open>onmessage\<close> reads; every field is optional.\<close>

record blob =
  data :: "string option"
  mimeType :: "string option"

record part =
  inlineData :: "blob option"

record content =
  parts :: "part list option"

record server_content =
  modelTurn :: "content option"
  interrupted :: "bool option"

record live_server_message =
  serverContent :: "server_content option"

text \<open>A \<open>MediaStream\<close> is the list of its tracks.\<close>

type_synonym media_stream = "nat list"

text \<open>What \<open>onaudioprocess\<close> hands to \<open>session.sendRealtimeInput\<close>: the blob made by
  \<open>createBlob\<close> from a window of samples, named here by the window.\<close>

datatype media = PcmBlob "number list"

datatype effect =
    ConsoleError string
  | NewAudioContext nat nat
  | GetUserMedia
  | VideoPlay media_stream
  | Connect nat
  | CreateScriptProcessor nat media_stream
  | SetInterval nat nat
  | SendRealtimeInput nat media
  | SetVisualizerData
  | SourceStart nat number audio_buffer
  | SourceStop nat
  | SessionClose nat
  | TrackStop nat
  | ContextClose nat
  | ClearInterval nat

record live_session =
  isConnected :: bool
  error :: "string option"
  visualizerData :: "number list"
  videoRef :: bool
  canvasRef :: bool
  streamRef :: "media_stream option"
  inputContextRef :: "nat option"
  outputContextRef :: "nat option"
  nextStartTimeRef :: number
  sourcesRef :: "nat list"
  sessionRef :: "nat option"
  frameIntervalRef :: "nat option"
  randomCalls :: nat
  fresh :: nat
  effects :: "effect list"

text \<open>The state of a freshly mounted component (the initial values of lines 320 to 336).
  \<open>sourcesRef\<close> is a JavaScript \<open>Set\<close>, kept here as the list of its members in insertion
  order, which is the order \<open>forEach\<close> visits them in.\<close>

definition mounted :: live_session where
  "mounted =
    \<lparr> isConnected = False, error = None, visualizerData = replicate 10 10,
      videoRef = True, canvasRef = True, streamRef = None,
      inputContextRef = None, outputContextRef = None, nextStartTimeRef = 0,
      sourcesRef = [], sessionRef = None, frameIntervalRef = None,
      randomCalls = 0, fresh = 1, effects = [] \<rparr>"

definition emit :: "effect list \<Rightarrow> live_session \<Rightarrow> live_session" where
  "emit es st = st\<lparr>effects := effects st @ es\<rparr>"

subsection \<open>startSession (lines 338 to 443)\<close>

text \<open>
  \<open>startSession\<close> is an \<open>async\<close> function with one \<open>await\<close>, on \<open>getUserMedia\<close>. It is
  modelled in two halves, so that other callbacks can run while the promise is pending:
  \<open>startSession_setup\<close> is the code before the \<open>await\<close>, and \<open>startSession_resume\<close> is
  the code after it, given how the promise settled (\<open>Inl err\<close> when it is rejected with
  \<open>err\<close>, for instance because permission is denied or no device exists). Constructing the
  client and the two audio contexts is taken to succeed. \<open>ai.live.connect\<close> is not
  awaited, so the \<open>catch\<close> block is reached from \<open>getUserMedia\<close> only.
\<close>

definition startSession_setup :: "live_session \<Rightarrow> live_session" where
  "startSession_setup st =
    (let st1 = st\<lparr>error := None\<rparr>;
         ictx = fresh st1;
         octx = Suc (fresh st1);
         st2 = emit [NewAudioContext ictx 16000, NewAudioContext octx 24000]
                 (st1\<lparr>fresh := Suc (Suc (fresh st1)),
                      inputContextRef := Some ictx,
                      outputContextRef := Some octx\<rparr>);
         st3 = st2\<lparr>nextStartTimeRef := 0\<rparr>
     in emit [GetUserMedia] st3)"

definition startSession_resume :: "string + media_stream \<Rightarrow> live_session \<Rightarrow> live_session" where
  "startSession_resume got st =
    (case got of
       Inl err \<Rightarrow>
         (emit [ConsoleError err] st)
           \<lparr>error := Some ''Failed to access media devices or connect.''\<rparr>
     | Inr stream \<Rightarrow>
         (let st1 = st\<lparr>streamRef := Some stream\<rparr>;
              st2 = (if videoRef st1 then emit [VideoPlay stream] st1 else st1);
              sessionPromise = fresh st2;
              st3 = emit [Connect sessionPromise] (st2\<lparr>fresh := Suc (fresh st2)\<rparr>)
          in st3\<lparr>sessionRef := Some sessionPromise\<rparr>))"

definition startSession :: "string + media_stream \<Rightarrow> live_session \<Rightarrow> live_session" where
  "startSession got st = startSession_resume got (startSession_setup st)"

subsection \<open>The callbacks handed to the transport\<close>

text \<open>\<open>startVideoStreaming\<close> (lines 445 to 473): arms the one-second timer. The body of
  the timer's callback (drawing and sending a frame) is not modelled.\<close>

definition startVideoStreaming :: "nat \<Rightarrow> live_session \<Rightarrow> live_session" where
  "startVideoStreaming sessionPromise st =
    (if \<not> videoRef st then st
     else if \<not> canvasRef st then st
     else (emit [SetInterval (fresh st) sessionPromise] st)
            \<lparr>fresh := Suc (fresh st), frameIntervalRef := Some (fresh st)\<rparr>)"

text \<open>\<open>onopen\<close> closes over the stream and the session promise of its \<open>startSession\<close> call.\<close>

definition onopen :: "media_stream \<Rightarrow> nat \<Rightarrow> live_session \<Rightarrow> live_session" where
  "onopen stream sessionPromise st =
    (let st1 = st\<lparr>isConnected := True\<rparr>
     in case inputContextRef st1 of
          None \<Rightarrow> st1
        | Some ictx \<Rightarrow>
            startVideoStreaming sessionPromise (emit [CreateScriptProcessor ictx stream] st1))"

text \<open>
  \<open>onaudioprocess\<close> (lines 370 to 378), run for each captured window \<open>inputData\<close>.
  \<open>Math.random\<close> is the sequence \<open>random\<close> of draws, read at the position \<open>randomCalls\<close>;
  \<open>prev.map\<close> draws once for each bar, from left to right.
\<close>

definition volume_of :: "number list \<Rightarrow> number" where
  "volume_of inputData = foldl (\<lambda>a b. a + \<bar>b\<bar>) 0 inputData / real (length inputData)"

definition onaudioprocess ::
    "nat \<Rightarrow> (nat \<Rightarrow> number) \<Rightarrow> number list \<Rightarrow> live_session \<Rightarrow> live_session" where
  "onaudioprocess sessionPromise random inputData st =
    (let st1 = emit [SendRealtimeInput sessionPromise (PcmBlob inputData)] st;
         volume = volume_of inputData;
         prev = visualizerData st1;
         st2 = emit [SetVisualizerData] st1
     in st2\<lparr>visualizerData :=
               map (\<lambda>i. random (randomCalls st2 + i) * 20 + volume * 500) [0..<length prev],
             randomCalls := randomCalls st2 + length prev\<rparr>)"

text \<open>
  \<open>onmessage\<close> (lines 386 to 418). \<open>base64Audio\<close> is the optional chain of line 388:
  it reads \<open>parts[0]\<close> and nothing else of the list.
\<close>

definition first_part :: "part list \<Rightarrow> part option" where
  "first_part ps = (case ps of [] \<Rightarrow> None | p # _ \<Rightarrow> Some p)"

definition base64Audio :: "live_server_message \<Rightarrow> string option" where
  "base64Audio msg =
    Option.bind (Option.bind (Option.bind (Option.bind (Option.bind
      (serverContent msg) modelTurn) parts) first_part) inlineData) data"

definition is_interrupted :: "live_server_message \<Rightarrow> bool" where
  "is_interrupted msg =
    (case serverContent msg of None \<Rightarrow> False
     | Some sc \<Rightarrow> (case interrupted sc of None \<Rightarrow> False | Some b \<Rightarrow> b))"

text \<open>Lines 413 to 417.\<close>

definition handle_interruption :: "live_server_message \<Rightarrow> live_session \<Rightarrow> live_session" where
  "handle_interruption msg st =
    (if is_interrupted msg
     then (emit (map SourceStop (sourcesRef st)) st)\<lparr>sourcesRef := [], nextStartTimeRef := 0\<rparr>
     else st)"

text \<open>
  The handler is \<open>async\<close> and has one \<open>await\<close>, at line 393, on \<open>decodeAudioData\<close> of
  services/audioUtils. \<open>onmessage_begin\<close> is the code that runs when the message is
  received, at the device time \<open>currentTime\<close> of the output context. Without a payload
  (an empty string is falsy) or without an output context the handler reaches no
  \<open>await\<close> and runs on to its end through the interruption branch: \<open>Finished\<close>.
  Otherwise it sets the clock at line 391 and is suspended at the \<open>await\<close>, keeping the
  payload: \<open>Suspended\<close>.
\<close>

datatype begun = Finished live_session | Suspended string live_session

definition onmessage_begin :: "number \<Rightarrow> live_server_message \<Rightarrow> live_session \<Rightarrow> begun" where
  "onmessage_begin currentTime msg st =
    (case base64Audio msg of
       None \<Rightarrow> Finished (handle_interruption msg st)
     | Some b64 \<Rightarrow>
         if b64 = [] then Finished (handle_interruption msg st)
         else case outputContextRef st of
           None \<Rightarrow> Finished (handle_interruption msg st)
         | Some ctx \<Rightarrow>
             Suspended b64 (st\<lparr>nextStartTimeRef := max (nextStartTimeRef st) currentTime\<rparr>))"

text \<open>
  \<open>onmessage_resume\<close> is the code after the \<open>await\<close> (lines 393 to 417), run on the state
  as it is when the promise settles, with \<open>decoded\<close> the buffer it settles to (\<open>None\<close> when
  decoding throws). When decoding throws, the handler's promise is rejected and the rest
  of the body, the interruption branch included, is skipped: \<open>Threw\<close> carries the state
  as the handler left it. Line 407 reads the clock again, so the buffer starts at the
  value the clock has now, whatever ran during the \<open>await\<close>.
\<close>

datatype 'a outcome = Done 'a | Threw 'a

fun state_of :: "'a outcome \<Rightarrow> 'a" where
  "state_of (Done s) = s"
| "state_of (Threw s) = s"

definition onmessage_resume ::
    "audio_buffer option \<Rightarrow> live_server_message \<Rightarrow> live_session \<Rightarrow> live_session outcome" where
  "onmessage_resume decoded msg st =
    (case decoded of
       None \<Rightarrow> Threw st
     | Some audioBuffer \<Rightarrow>
         (let source = fresh st;
              st2 = emit [SourceStart source (nextStartTimeRef st) audioBuffer]
                      (st\<lparr>fresh := Suc (fresh st)\<rparr>);
              st3 = st2\<lparr>nextStartTimeRef := nextStartTimeRef st2 + duration audioBuffer\<rparr>;
              st4 = st3\<lparr>sourcesRef := sourcesRef st3 @ [source]\<rparr>
          in Done (handle_interruption msg st4)))"

text \<open>
  \<open>onmessage\<close> is a handler during whose \<open>await\<close> nothing else runs: the two halves back
  to back, with \<open>decodeAudioData\<close> the function from payloads to decoded buffers.
\<close>

definition onmessage ::
    "(string \<Rightarrow> audio_buffer option) \<Rightarrow> number \<Rightarrow> live_server_message \<Rightarrow>
     live_session \<Rightarrow> live_session outcome" where
  "onmessage decodeAudioData currentTime msg st =
    (case onmessage_begin currentTime msg st of
       Finished st' \<Rightarrow> Done st'
     | Suspended b64 st' \<Rightarrow> onmessage_resume (decodeAudioData b64) msg st')"

text \<open>The listener of line 403: a source that ends leaves the set.\<close>

definition source_ended :: "nat \<Rightarrow> live_session \<Rightarrow> live_session" where
  "source_ended source st = st\<lparr>sourcesRef := removeAll source (sourcesRef st)\<rparr>"

definition onclose :: "live_session \<Rightarrow> live_session" where
  "onclose st = st\<lparr>isConnected := False\<rparr>"

text \<open>\<open>onerror\<close> (lines 422 to 426); \<open>e\<close> is the message text of the transport's error.\<close>

definition onerror :: "string \<Rightarrow> live_session \<Rightarrow> live_session" where
  "onerror e st =
    (emit [ConsoleError e] st)\<lparr>error := Some ''Connection error.'', isConnected := False\<rparr>"

subsection \<open>stopSession (lines 475 to 488)\<close>

text \<open>A timer id of 0 is falsy, so \<open>clearInterval\<close> is skipped for it.\<close>

definition stopSession :: "live_session \<Rightarrow> live_session" where
  "stopSession st =
    (let st1 = (case sessionRef st of None \<Rightarrow> st | Some s \<Rightarrow> emit [SessionClose s] st);
         st2 = (case streamRef st1 of None \<Rightarrow> st1 | Some tracks \<Rightarrow> emit (map TrackStop tracks) st1);
         st3 = (case inputContextRef st2 of None \<Rightarrow> st2 | Some c \<Rightarrow> emit [ContextClose c] st2);
         st4 = (case outputContextRef st3 of None \<Rightarrow> st3 | Some c \<Rightarrow> emit [ContextClose c] st3);
         st5 = (case frameIntervalRef st4 of
                  None \<Rightarrow> st4
                | Some i \<Rightarrow> if i = 0 then st4 else emit [ClearInterval i] st4)
     in st5\<lparr>isConnected := False, sessionRef := None\<rparr>)"

subsection \<open>Reading the effects\<close>

text \<open>The calls of \<open>source.start\<close>, oldest first, as pairs of start time and buffer.\<close>

fun started :: "effect list \<Rightarrow> (number \<times> audio_buffer) list" where
  "started [] = []"
| "started (SourceStart s t b # es) = (t, b) # started es"
| "started (e # es) = started es"

text \<open>What was done to the browser between the state \<open>st\<close> and a later state \<open>st'\<close>.\<close>

definition new_effects :: "live_session \<Rightarrow> live_session \<Rightarrow> effect list" where
  "new_effects st st' = drop (length (effects st)) (effects st')"

subsection \<open>The event loop\<close>

text \<open>
  Nothing in the source makes one handler wait for another, so the handlers of several
  messages can be suspended at once and their promises can settle in any order. An
  \<open>event\<close> is either the receipt of a message at a device time, or the settling of the
  \<open>await\<close> of the suspended handler at a position of the list \<open>pending\<close>. A \<open>world\<close> is the
  component together with its suspended handlers; each is kept with the time at which its
  message was received. \<open>served\<close> lists, for the handlers that went on to start their
  buffer, the time of receipt and the payload, in the order of the starts.
\<close>

datatype event = Message number live_server_message | Settle nat

record world =
  session :: live_session
  pending :: "(number \<times> live_server_message \<times> string) list"
  served :: "(number \<times> string) list"

definition idle :: "live_session \<Rightarrow> world" where
  "idle st = \<lparr>session = st, pending = [], served = []\<rparr>"

fun step :: "(string \<Rightarrow> audio_buffer option) \<Rightarrow> event \<Rightarrow> world \<Rightarrow> world" where
  "step decodeAudioData (Message currentTime msg) w =
    (case onmessage_begin currentTime msg (session w) of
       Finished st' \<Rightarrow> w\<lparr>session := st'\<rparr>
     | Suspended b64 st' \<Rightarrow>
         w\<lparr>session := st', pending := pending w @ [(currentTime, msg, b64)]\<rparr>)"
| "step decodeAudioData (Settle k) w =
    (if k < length (pending w)
     then (case pending w ! k of
             (received, msg, b64) \<Rightarrow>
               (let w' = w\<lparr>pending := take k (pending w) @ drop (Suc k) (pending w)\<rparr>
                in case onmessage_resume (decodeAudioData b64) msg (session w) of
                     Done st' \<Rightarrow> w'\<lparr>session := st', served := served w @ [(received, b64)]\<rparr>
                   | Threw st' \<Rightarrow> w'\<lparr>session := st'\<rparr>))
     else w)"

fun run :: "(string \<Rightarrow> audio_buffer option) \<Rightarrow> event list \<Rightarrow> world \<Rightarrow> world" where
  "run decodeAudioData [] w = w"
| "run decodeAudioData (e # es) w = run decodeAudioData es (step decodeAudioData e w)"

text \<open>The events in which every handler's \<open>await\<close> settles before the next message.\<close>

fun serial :: "(number \<times> live_server_message) list \<Rightarrow> event list" where
  "serial [] = []"
| "serial ((currentTime, msg) # rest) = Message currentTime msg # Settle 0 # serial rest"

fun flagged :: "event \<Rightarrow> bool" where
  "flagged (Message currentTime msg) = is_interrupted msg"
| "flagged (Settle k) = False"

text \<open>The decoded buffer that a message brings, with the device time at which it is
  received: \<open>None\<close> when the message has no audio payload or the payload does not decode.\<close>

definition arrival ::
    "(string \<Rightarrow> audio_buffer option) \<Rightarrow> number \<times> live_server_message \<Rightarrow>
     (number \<times> audio_buffer) option" where
  "arrival decodeAudioData ev =
    (case base64Audio (snd ev) of
       None \<Rightarrow> None
     | Some b64 \<Rightarrow>
         if b64 = [] then None else map_option (Pair (fst ev)) (decodeAudioData b64))"

subsection \<open>The Playback Scheduler as the specification words it\<close>

text \<open>
  Section 4.3 of the specification: on receiving a decoded buffer, compute
  \<open>startAt = max(nextStartTime, now)\<close>, schedule playback to begin at \<open>startAt\<close>, and set
  \<open>nextStartTime = startAt + bufferDuration\<close>. \<open>spec_schedule\<close> is the list of scheduled
  buffers for a list of arrivals, \<open>spec_clock\<close> the clock afterwards.
\<close>

fun spec_schedule ::
    "number \<Rightarrow> (number \<times> audio_buffer) list \<Rightarrow> (number \<times> audio_buffer) list" where
  "spec_schedule nextStartTime [] = []"
| "spec_schedule nextStartTime ((now, buffer) # rest) =
     (max nextStartTime now, buffer)
       # spec_schedule (max nextStartTime now + duration buffer) rest"

fun spec_clock :: "number \<Rightarrow> (number \<times> audio_buffer) list \<Rightarrow> number" where
  "spec_clock nextStartTime [] = nextStartTime"
| "spec_clock nextStartTime ((now, buffer) # rest) =
     spec_clock (max nextStartTime now + duration buffer) rest"

text \<open>Section 4.2 of the specification: the mean absolute value of a window.\<close>

definition mean_abs :: "number list \<Rightarrow> number" where
  "mean_abs window = (\<Sum>x\<leftarrow>window. \<bar>x\<bar>) / real (length window)"

subsection \<open>The PCM codec\<close>

type_synonym int16 = "16 word"
type_synonym byte = "8 word"

datatype codec_error = MalformedPayload

text \<open>
  Modelled from the spec: the PCM codec \<open>encode\<close> and \<open>decode\<close> of section 4.1. Its code
  (\<open>createBlob\<close>, \<open>decode\<close> and \<open>decodeAudioData\<close> of services/audioUtils) is imported by
  the component but is not among the sources. \<open>encode\<close> maps each sample to a 16-bit
  signed integer by linear scaling, clamps what is out of range to the representable
  extremes, and lays the integers out as bytes; \<open>decode\<close> is its inverse on input of even
  length, and odd length is a malformed-input error. The linear scaling multiplies the
  sample by \<open>factor\<close> and rounds the product to an integer with \<open>rounding\<close>; the
  specification names neither, so both are parameters. It does not fix the byte order
  either, which is taken to be low byte first.
\<close>

definition clamp16 :: "int \<Rightarrow> int" where
  "clamp16 k = max (- 32768) (min 32767 k)"

definition quantize :: "real \<Rightarrow> (real \<Rightarrow> int) \<Rightarrow> real \<Rightarrow> int16" where
  "quantize factor rounding x = word_of_int (clamp16 (rounding (x * factor)))"

definition to_bytes :: "int16 \<Rightarrow> byte list" where
  "to_bytes w = [ucast w, ucast (drop_bit 8 w)]"

definition from_bytes :: "byte \<Rightarrow> byte \<Rightarrow> int16" where
  "from_bytes lo hi = push_bit 8 (ucast hi) OR ucast lo"

definition encode :: "real \<Rightarrow> (real \<Rightarrow> int) \<Rightarrow> real list \<Rightarrow> byte list" where
  "encode factor rounding samples =
    concat (map (\<lambda>x. to_bytes (quantize factor rounding x)) samples)"

fun decode :: "byte list \<Rightarrow> codec_error + int16 list" where
  "decode [] = Inr []"
| "decode [b] = Inl MalformedPayload"
| "decode (lo # hi # rest) =
     (case decode rest of Inl e \<Rightarrow> Inl e | Inr ws \<Rightarrow> Inr (from_bytes lo hi # ws))"

subsection \<open>Sample inputs\<close>

text \<open>A session that was started with a two-track stream and whose transport has opened.\<close>

definition open_session :: live_session where
  "open_session = onopen [7, 8] 3 (startSession (Inr [7, 8]) mounted)"

definition audio_message :: "string \<Rightarrow> live_server_message" where
  "audio_message b64 =
    \<lparr>serverContent = Some
      \<lparr>modelTurn = Some \<lparr>parts = Some [\<lparr>inlineData = Some \<lparr>data = Some b64, mimeType = None\<rparr>\<rparr>]\<rparr>,
       interrupted = None\<rparr>\<rparr>"

definition interruption_message :: live_server_message where
  "interruption_message = \<lparr>serverContent = Some \<lparr>modelTurn = None, interrupted = Some True\<rparr>\<rparr>"

definition interrupting_audio_message :: "string \<Rightarrow> live_server_message" where
  "interrupting_audio_message b64 =
    \<lparr>serverContent = Some
      \<lparr>modelTurn = Some \<lparr>parts = Some [\<lparr>inlineData = Some \<lparr>data = Some b64, mimeType = None\<rparr>\<rparr>]\<rparr>,
       interrupted = Some True\<rparr>\<rparr>"

text \<open>A decoder that turns every payload into a buffer of three seconds.\<close>

definition three_seconds :: "string \<Rightarrow> audio_buffer option" where
  "three_seconds b64 = Some \<lparr>duration = 3\<rparr>"

text \<open>The open session after one audio message, received at device time 1, was decoded
  and its buffer started: source 5 is playing.\<close>

definition playing_session :: live_session where
  "playing_session = state_of (onmessage three_seconds 1 (audio_message ''AAAA'') open_session)"

section \<open>Properties\<close>

subsection \<open>Auxiliary facts\<close>

lemma started_append: "started (xs @ ys) = started xs @ started ys"
  by (induction xs rule: started.induct) auto

lemma handle_interruption_unflagged: "\<not> is_interrupted msg \<Longrightarrow> handle_interruption msg st = st"
  by (simp add: handle_interruption_def)

lemma begin_unflagged:
  assumes "\<not> is_interrupted msg"
  shows "onmessage_begin now msg st = Finished st
       \<or> (\<exists>b64. onmessage_begin now msg st
             = Suspended b64 (st\<lparr>nextStartTimeRef := max (nextStartTimeRef st) now\<rparr>))"
  using assms
  by (simp add: onmessage_begin_def handle_interruption_unflagged split: option.splits)

lemma resume_unflagged:
  assumes "\<not> is_interrupted msg"
  shows "onmessage_resume (Some b) msg st =
    Done (st\<lparr>nextStartTimeRef := nextStartTimeRef st + duration b,
              fresh := Suc (fresh st),
              effects := effects st @ [SourceStart (fresh st) (nextStartTimeRef st) b],
              sourcesRef := sourcesRef st @ [fresh st]\<rparr>)"
  using assms
  by (simp add: onmessage_resume_def handle_interruption_unflagged emit_def Let_def)

lemma resume_failed: "onmessage_resume None msg st = Threw st"
  by (simp add: onmessage_resume_def)

lemma begin_audio:
  assumes "base64Audio msg = Some b64" and "b64 \<noteq> []" and "outputContextRef st = Some ctx"
  shows "onmessage_begin now msg st
           = Suspended b64 (st\<lparr>nextStartTimeRef := max (nextStartTimeRef st) now\<rparr>)"
  using assms by (simp add: onmessage_begin_def)

lemma onmessage_schedules:
  assumes "arrival dec (now, msg) = Some a" and "\<not> is_interrupted msg"
    and "outputContextRef st = Some ctx"
  shows "state_of (onmessage dec now msg st) =
    st\<lparr>nextStartTimeRef := max (nextStartTimeRef st) now + duration (snd a),
              fresh := Suc (fresh st),
              effects := effects st @ [SourceStart (fresh st) (max (nextStartTimeRef st) now) (snd a)],
              sourcesRef := sourcesRef st @ [fresh st]\<rparr> \<and> fst a = now"
proof -
  from assms(1) obtain b64 b where h: "base64Audio msg = Some b64" "b64 \<noteq> []" "dec b64 = Some b" "a = (now, b)"
    by (auto simp: arrival_def split: option.splits if_splits)
  show ?thesis
    using h(3,4)
    by (simp add: onmessage_def begin_audio[OF h(1) h(2) assms(3)] resume_unflagged[OF assms(2)])
qed

lemma serial_step:
  assumes "pending w = []"
  shows "session (step dec (Settle 0) (step dec (Message now msg) w))
           = state_of (onmessage dec now msg (session w))
       \<and> pending (step dec (Settle 0) (step dec (Message now msg) w)) = []"
  using assms
  by (simp add: onmessage_def Let_def split: begun.splits outcome.splits)

lemma run_serial:
  assumes "outputContextRef (session w) = Some ctx" and "pending w = []"
    and "\<forall>m \<in> set ms. arrival dec m \<noteq> None \<and> \<not> is_interrupted (snd m)"
  shows "started (effects (session (run dec (serial ms) w))) =
           started (effects (session w))
             @ spec_schedule (nextStartTimeRef (session w)) (List.map_filter (arrival dec) ms)
       \<and> nextStartTimeRef (session (run dec (serial ms) w))
           = spec_clock (nextStartTimeRef (session w)) (List.map_filter (arrival dec) ms)"
  using assms
proof (induction ms arbitrary: w)
  case Nil
  then show ?case by (simp add: map_filter_simps)
next
  case (Cons m ms)
  obtain now msg where m: "m = (now, msg)" by (cases m)
  from Cons.prems(3) m obtain a where a: "arrival dec (now, msg) = Some a" and ni: "\<not> is_interrupted msg"
    by auto
  obtain t b where ab: "a = (t, b)" by (cases a)
  let ?w1 = "step dec (Settle 0) (step dec (Message now msg) w)"
  note pair = serial_step[OF Cons.prems(2), of dec now msg]
  note sched = onmessage_schedules[OF a ni Cons.prems(1)]
  have ctx1: "outputContextRef (session ?w1) = Some ctx" using pair sched Cons.prems(1) by simp
  have p1: "pending ?w1 = []" using pair by simp
  have rest: "\<forall>m \<in> set ms. arrival dec m \<noteq> None \<and> \<not> is_interrupted (snd m)"
    using Cons.prems(3) by simp
  have run1: "run dec (serial (m # ms)) w = run dec (serial ms) ?w1" by (simp add: m)
  from Cons.IH[OF ctx1 p1 rest] pair sched ab
  show ?case
    unfolding run1 by (simp add: m a map_filter_simps started_append)
qed

lemma serial_unflagged:
  "\<forall>e \<in> set (serial ms). \<not> flagged e \<Longrightarrow> \<forall>m \<in> set ms. \<not> is_interrupted (snd m)"
  by (induction ms rule: serial.induct) auto

lemma chain_snoc:
  assumes "\<forall>k. Suc k < length xs \<longrightarrow> fst (xs ! k) + duration (snd (xs ! k)) \<le> fst (xs ! Suc k)"
    and "xs \<noteq> [] \<longrightarrow> fst (last xs) + duration (snd (last xs)) \<le> t"
  shows "\<forall>k. Suc k < length (xs @ [(t, b)]) \<longrightarrow>
           fst ((xs @ [(t, b)]) ! k) + duration (snd ((xs @ [(t, b)]) ! k))
             \<le> fst ((xs @ [(t, b)]) ! Suc k)"
proof (intro allI impI)
  fix k assume k: "Suc k < length (xs @ [(t, b)])"
  show "fst ((xs @ [(t, b)]) ! k) + duration (snd ((xs @ [(t, b)]) ! k))
             \<le> fst ((xs @ [(t, b)]) ! Suc k)"
  proof (cases "Suc k < length xs")
    case True
    then show ?thesis using assms(1) by (simp add: nth_append)
  next
    case False
    with k have eq: "Suc k = length xs" by simp
    then have ne: "xs \<noteq> []" by auto
    from eq have "k = length xs - 1" by simp
    with ne have "xs ! k = last xs" by (simp add: last_conv_nth)
    with ne have "xs \<noteq> []" and "xs ! k = last xs" by simp_all
    then show ?thesis using assms(2) eq by (simp add: nth_append)
  qed
qed

lemma step_keeps_schedule:
  fixes w :: world and n :: nat and dec :: "string \<Rightarrow> audio_buffer option" and e :: event
  defines "st \<equiv> session w" and "st' \<equiv> session (step dec e w)"
  defines "played \<equiv> drop n (started (effects st))"
    and "played' \<equiv> drop n (started (effects st'))"
  assumes unflagged: "\<not> flagged e"
    and durations: "\<forall>b64 b. dec b64 = Some b \<longrightarrow> 0 \<le> duration b"
    and len: "n \<le> length (started (effects st))"
    and chain: "\<forall>k. Suc k < length played \<longrightarrow>
                  fst (played ! k) + duration (snd (played ! k)) \<le> fst (played ! Suc k)"
    and ends: "played \<noteq> [] \<longrightarrow> fst (last played) + duration (snd (last played)) \<le> nextStartTimeRef st"
    and waiting: "\<forall>p \<in> set (pending w). fst p \<le> nextStartTimeRef st \<and> \<not> is_interrupted (fst (snd p))"
    and slen: "length (served w) = length played"
    and recv: "\<forall>k < length played. fst (served w ! k) \<le> fst (played ! k)
                 \<and> dec (snd (served w ! k)) = Some (snd (played ! k))"
  shows "n \<le> length (started (effects st'))
    \<and> (\<forall>k. Suc k < length played' \<longrightarrow>
                  fst (played' ! k) + duration (snd (played' ! k)) \<le> fst (played' ! Suc k))
    \<and> (played' \<noteq> [] \<longrightarrow> fst (last played') + duration (snd (last played')) \<le> nextStartTimeRef st')
    \<and> (\<forall>p \<in> set (pending (step dec e w)). fst p \<le> nextStartTimeRef st' \<and> \<not> is_interrupted (fst (snd p)))
    \<and> length (served (step dec e w)) = length played'
    \<and> (\<forall>k < length played'. fst (served (step dec e w) ! k) \<le> fst (played' ! k)
                 \<and> dec (snd (served (step dec e w) ! k)) = Some (snd (played' ! k)))"
proof (cases e)
  case (Message now msg)
  with unflagged have ni: "\<not> is_interrupted msg" by simp
  from begin_unflagged[OF ni, of now st]
  show ?thesis
  proof
    assume "onmessage_begin now msg st = Finished st"
    then have "step dec e w = w\<lparr>session := st\<rparr>" by (simp add: Message st_def)
    then show ?thesis
      using len chain ends waiting slen recv
      by (simp add: st'_def played'_def played_def st_def)
  next
    assume "\<exists>b64. onmessage_begin now msg st
             = Suspended b64 (st\<lparr>nextStartTimeRef := max (nextStartTimeRef st) now\<rparr>)"
    then obtain b64 where "onmessage_begin now msg st
             = Suspended b64 (st\<lparr>nextStartTimeRef := max (nextStartTimeRef st) now\<rparr>)" ..
    then have w': "step dec e w = w\<lparr>session := st\<lparr>nextStartTimeRef := max (nextStartTimeRef st) now\<rparr>,
                               pending := pending w @ [(now, msg, b64)]\<rparr>"
      by (simp add: Message st_def)
    have p: "played' = played" by (simp add: played'_def played_def st'_def w')
    have c: "nextStartTimeRef st' = max (nextStartTimeRef st) now" by (simp add: st'_def w')
    have e: "effects st' = effects st" by (simp add: st'_def w')
    show ?thesis
      unfolding p c e
      using len chain ends waiting slen recv ni
      by (auto simp: w')
  qed
next
  case (Settle k)
  show ?thesis
  proof (cases "k < length (pending w)")
    case False
    then have "step dec e w = w" by (simp add: Settle)
    then show ?thesis
      using len chain ends waiting slen recv
      by (simp add: st'_def played'_def played_def st_def)
  next
    case True
    obtain r msg b64 where pk: "pending w ! k = (r, msg, b64)" by (cases "pending w ! k")
    from True pk have mem: "(r, msg, b64) \<in> set (pending w)" by (metis nth_mem)
    with waiting have r: "r \<le> nextStartTimeRef st" and ni: "\<not> is_interrupted msg" by auto
    have sub: "set (take k (pending w) @ drop (Suc k) (pending w)) \<subseteq> set (pending w)"
      using set_take_subset set_drop_subset by (metis Un_least set_append)
    show ?thesis
    proof (cases "dec b64")
      case None
      then have w': "step dec e w = w\<lparr>pending := take k (pending w) @ drop (Suc k) (pending w), session := st\<rparr>"
        using True pk by (simp add: Settle resume_failed st_def Let_def)
      have p: "played' = played" by (simp add: played'_def played_def st'_def w')
      have s: "st' = st" by (simp add: st'_def w')
      show ?thesis
        unfolding p s
        using len chain ends waiting slen recv sub
        by (auto simp: w')
    next
      case (Some b)
      with durations have d: "0 \<le> duration b" by simp
      let ?st2 = "st\<lparr>nextStartTimeRef := nextStartTimeRef st + duration b,
              fresh := Suc (fresh st),
              effects := effects st @ [SourceStart (fresh st) (nextStartTimeRef st) b],
              sourcesRef := sourcesRef st @ [fresh st]\<rparr>"
      have w': "step dec e w = w\<lparr>pending := take k (pending w) @ drop (Suc k) (pending w),
                 session := ?st2, served := served w @ [(r, b64)]\<rparr>"
        using True pk Some by (simp add: Settle resume_unflagged[OF ni] st_def Let_def)
      have s: "st' = ?st2" by (simp add: st'_def w')
      have p: "played' = played @ [(nextStartTimeRef st, b)]"
        using len by (simp add: played'_def played_def s started_append)
      have c: "nextStartTimeRef st' = nextStartTimeRef st + duration b" by (simp add: s)
      have 1: "n \<le> length (started (effects st'))" using len by (simp add: s started_append)
      have 2: "\<forall>k. Suc k < length played' \<longrightarrow>
                  fst (played' ! k) + duration (snd (played' ! k)) \<le> fst (played' ! Suc k)"
        unfolding p by (rule chain_snoc[OF chain ends])
      have 3: "played' \<noteq> [] \<longrightarrow> fst (last played') + duration (snd (last played')) \<le> nextStartTimeRef st'"
        by (simp add: p c)
      have 4: "\<forall>p \<in> set (pending (step dec e w)). fst p \<le> nextStartTimeRef st' \<and> \<not> is_interrupted (fst (snd p))"
        using waiting sub d unfolding c w' by fastforce
      have 5: "length (served (step dec e w)) = length played'"
        using slen by (simp add: w' p)
      have 6: "\<forall>k < length played'. fst (served (step dec e w) ! k) \<le> fst (played' ! k)
                 \<and> dec (snd (served (step dec e w) ! k)) = Some (snd (played' ! k))"
      proof (intro allI impI)
        fix j assume j: "j < length played'"
        show "fst (served (step dec e w) ! j) \<le> fst (played' ! j)
                 \<and> dec (snd (served (step dec e w) ! j)) = Some (snd (played' ! j))"
        proof (cases "j < length played")
          case True
          then show ?thesis using recv slen by (simp add: w' p nth_append)
        next
          case False
          with j have "j = length played" by (simp add: p)
          then show ?thesis using slen r Some by (simp add: w' p nth_append)
        qed
      qed
      from 1 2 3 4 5 6 show ?thesis by blast
    qed
  qed
qed

lemma run_keeps_schedule:
  fixes w :: world and n :: nat and dec :: "string \<Rightarrow> audio_buffer option"
  assumes "\<forall>e \<in> set evs. \<not> flagged e"
    and "\<forall>b64 b. dec b64 = Some b \<longrightarrow> 0 \<le> duration b"
    and "n \<le> length (started (effects (session w)))"
    and "\<forall>k. Suc k < length (drop n (started (effects (session w)))) \<longrightarrow>
            fst (drop n (started (effects (session w))) ! k)
              + duration (snd (drop n (started (effects (session w))) ! k))
              \<le> fst (drop n (started (effects (session w))) ! Suc k)"
    and "drop n (started (effects (session w))) \<noteq> [] \<longrightarrow>
           fst (last (drop n (started (effects (session w)))))
             + duration (snd (last (drop n (started (effects (session w))))))
             \<le> nextStartTimeRef (session w)"
    and "\<forall>p \<in> set (pending w). fst p \<le> nextStartTimeRef (session w) \<and> \<not> is_interrupted (fst (snd p))"
    and "length (served w) = length (drop n (started (effects (session w))))"
    and "\<forall>k < length (drop n (started (effects (session w)))).
           fst (served w ! k) \<le> fst (drop n (started (effects (session w))) ! k)
           \<and> dec (snd (served w ! k)) = Some (snd (drop n (started (effects (session w))) ! k))"
  shows "(\<forall>k. Suc k < length (drop n (started (effects (session (run dec evs w))))) \<longrightarrow>
            fst (drop n (started (effects (session (run dec evs w)))) ! k)
              + duration (snd (drop n (started (effects (session (run dec evs w)))) ! k))
              \<le> fst (drop n (started (effects (session (run dec evs w)))) ! Suc k))
    \<and> length (served (run dec evs w)) = length (drop n (started (effects (session (run dec evs w)))))
    \<and> (\<forall>k < length (drop n (started (effects (session (run dec evs w))))).
           fst (served (run dec evs w) ! k) \<le> fst (drop n (started (effects (session (run dec evs w)))) ! k)
           \<and> dec (snd (served (run dec evs w) ! k))
               = Some (snd (drop n (started (effects (session (run dec evs w)))) ! k)))"
  using assms
proof (induction evs arbitrary: w)
  case Nil
  then show ?case by simp
next
  case (Cons e evs)
  from Cons.prems(1) have e: "\<not> flagged e" and rest: "\<forall>e \<in> set evs. \<not> flagged e" by simp_all
  note s = step_keeps_schedule[OF e Cons.prems(2) Cons.prems(3) Cons.prems(4) Cons.prems(5)
      Cons.prems(6) Cons.prems(7) Cons.prems(8)]
  have "run dec (e # evs) w = run dec evs (step dec e w)" by simp
  moreover note Cons.IH[OF rest Cons.prems(2) s[THEN conjunct1] s[THEN conjunct2, THEN conjunct1]
      s[THEN conjunct2, THEN conjunct2, THEN conjunct1]
      s[THEN conjunct2, THEN conjunct2, THEN conjunct2, THEN conjunct1]
      s[THEN conjunct2, THEN conjunct2, THEN conjunct2, THEN conjunct2, THEN conjunct1]
      s[THEN conjunct2, THEN conjunct2, THEN conjunct2, THEN conjunct2, THEN conjunct2]]
  ultimately show ?case by simp
qed

lemma open_session_eq: "open_session = 
 \<lparr>isConnected = True, error = None,
    visualizerData = replicate 10 10,
    videoRef = True, canvasRef = True, streamRef = Some [7, 8],
    inputContextRef = Some 1, outputContextRef = Some 2,
    nextStartTimeRef = 0, sourcesRef = [], sessionRef = Some 3,
    frameIntervalRef = Some 4, randomCalls = 0, fresh = 5,
    effects =
      [NewAudioContext 1 16000, NewAudioContext 2 24000, GetUserMedia,
       VideoPlay [7, 8], Connect 3, CreateScriptProcessor 1 [7, 8],
       SetInterval 4 3]\<rparr>"
  by (simp add: open_session_def onopen_def startSession_def startSession_setup_def startSession_resume_def
      startVideoStreaming_def mounted_def emit_def Let_def)

lemma interleaved_run:
  "run three_seconds
     [Message 1 (audio_message ''AAAA''), Message 2 (audio_message ''AAAA''), Settle 0, Settle 0]
     (idle open_session)
   = \<lparr>session = open_session
        \<lparr>nextStartTimeRef := 8, sourcesRef := [5, 6], fresh := 7,
         effects := effects open_session
           @ [SourceStart 5 2 \<lparr>duration = 3\<rparr>, SourceStart 6 5 \<lparr>duration = 3\<rparr>]\<rparr>,
      pending = [], served = [(1, ''AAAA''), (2, ''AAAA'')]\<rparr>"
  by (simp add: open_session_eq idle_def three_seconds_def audio_message_def base64Audio_def
      first_part_def is_interrupted_def onmessage_begin_def onmessage_resume_def
      handle_interruption_def emit_def Let_def)

lemma playing_session_eq:
  "playing_session =
    \<lparr>isConnected = True, error = None,
    visualizerData = replicate 10 10,
    videoRef = True, canvasRef = True, streamRef = Some [7, 8],
    inputContextRef = Some 1, outputContextRef = Some 2,
    nextStartTimeRef = 4, sourcesRef = [5], sessionRef = Some 3,
    frameIntervalRef = Some 4, randomCalls = 0, fresh = 6,
    effects =
      [NewAudioContext 1 16000, NewAudioContext 2 24000, GetUserMedia,
       VideoPlay [7, 8], Connect 3, CreateScriptProcessor 1 [7, 8],
       SetInterval 4 3, SourceStart 5 1 \<lparr>duration = 3\<rparr>]\<rparr>"
  by (simp add: playing_session_def open_session_eq onmessage_def onmessage_begin_def
      onmessage_resume_def handle_interruption_def three_seconds_def audio_message_def
      base64Audio_def first_part_def is_interrupted_def emit_def Let_def)

lemma interrupted_result:
  assumes "is_interrupted msg"
    and "onmessage_begin now msg st = Finished st'
       \<or> onmessage_resume decoded msg st = Done st'
       \<or> onmessage dec now msg st = Done st'"
  shows "sourcesRef st' = [] \<and> nextStartTimeRef st' = 0
    \<and> (new_effects st st' = map SourceStop (sourcesRef st)
        \<or> (\<exists>t b. new_effects st st'
              = SourceStart (fresh st) t b # map SourceStop (sourcesRef st @ [fresh st])))"
  using assms
  by (auto simp: onmessage_def onmessage_begin_def onmessage_resume_def handle_interruption_def
      emit_def new_effects_def Let_def split: option.splits if_splits begun.splits)

lemma stopSession_open_session:
  "stopSession open_session =
    \<lparr>isConnected = False, error = None, visualizerData = replicate 10 10,
     videoRef = True, canvasRef = True, streamRef = Some [7, 8],
     inputContextRef = Some 1, outputContextRef = Some 2,
     nextStartTimeRef = 0, sourcesRef = [], sessionRef = None,
     frameIntervalRef = Some 4, randomCalls = 0, fresh = 5,
     effects =
       [NewAudioContext 1 16000, NewAudioContext 2 24000, GetUserMedia,
        VideoPlay [7, 8], Connect 3, CreateScriptProcessor 1 [7, 8], SetInterval 4 3,
        SessionClose 3, TrackStop 7, TrackStop 8, ContextClose 1, ContextClose 2,
        ClearInterval 4]\<rparr>"
  by (simp add: open_session_eq stopSession_def emit_def Let_def)

lemma from_to_bytes: "from_bytes (ucast w) (ucast (drop_bit 8 w)) = w"
  unfolding from_bytes_def
  by (rule bit_word_eqI) (auto simp: bit_simps)

lemma decode_encode: "decode (encode factor rounding s) = Inr (map (quantize factor rounding) s)"
  by (induction s) (simp_all add: encode_def to_bytes_def from_to_bytes)

lemma length_encode: "length (encode factor rounding s) = 2 * length s"
  by (induction s) (simp_all add: encode_def to_bytes_def)

lemma sint_quantize: "sint (quantize factor rounding x) = clamp16 (rounding (x * factor))"
  unfolding quantize_def clamp16_def
  by (simp add: sint_sbintrunc' signed_take_bit_int_eq_self)

lemma scaled_high:
  fixes factor x :: real and rounding :: "real \<Rightarrow> int"
  assumes "32768 \<le> factor" and "\<lfloor>x * factor\<rfloor> \<le> rounding (x * factor)" and "1 \<le> x"
  shows "32768 \<le> rounding (x * factor)"
proof -
  have "0 \<le> factor" using assms(1) by simp
  then have "1 * factor \<le> x * factor" using assms(3) by (rule mult_right_mono[rotated])
  then have "32768 \<le> x * factor" using assms(1) by linarith
  then have "32768 \<le> \<lfloor>x * factor\<rfloor>" by simp
  then show ?thesis using assms(2) by (rule order_trans)
qed

lemma scaled_low:
  fixes factor x :: real and rounding :: "real \<Rightarrow> int"
  assumes "32768 \<le> factor" and "rounding (x * factor) \<le> \<lceil>x * factor\<rceil>" and "x \<le> - 1"
  shows "rounding (x * factor) \<le> - 32768"
proof -
  have "0 \<le> factor" using assms(1) by simp
  then have "x * factor \<le> (- 1) * factor" using assms(3) by (rule mult_right_mono[rotated])
  then have "x * factor \<le> - 32768" using assms(1) by linarith
  then have "\<lceil>x * factor\<rceil> \<le> - 32768" by simp
  with assms(2) show ?thesis by (rule order_trans)
qed

lemma foldl_abs: "foldl (\<lambda>a b. a + \<bar>b\<bar>) s xs = s + (\<Sum>x\<leftarrow>xs. \<bar>x\<bar>)" for s :: real
  by (induction xs arbitrary: s) auto

lemma volume_of_mean_abs: "volume_of w = mean_abs w"
  by (simp add: volume_of_def mean_abs_def foldl_abs)

lemma base64Audio_first_part:
  "base64Audio \<lparr>serverContent = Some \<lparr>modelTurn = Some \<lparr>parts = Some (p # later)\<rparr>, interrupted = i\<rparr>\<rparr>
     = Option.bind (inlineData p) data"
  by (simp add: base64Audio_def first_part_def)

lemma handle_interruption_cong:
  "is_interrupted m = is_interrupted m' \<Longrightarrow> handle_interruption m st = handle_interruption m' st"
  by (simp add: handle_interruption_def)

lemma onmessage_begin_cong:
  assumes "base64Audio m = base64Audio m'" and "is_interrupted m = is_interrupted m'"
  shows "onmessage_begin now m st = onmessage_begin now m' st"
  unfolding onmessage_begin_def assms(1) handle_interruption_cong[OF assms(2)]
  by (rule refl)

lemma onmessage_resume_cong:
  assumes "is_interrupted m = is_interrupted m'"
  shows "onmessage_resume decoded m st = onmessage_resume decoded m' st"
  by (cases decoded) (simp_all add: onmessage_resume_def Let_def handle_interruption_cong[OF assms])

lemma onmessage_cong:
  assumes "base64Audio m = base64Audio m'" and "is_interrupted m = is_interrupted m'"
  shows "onmessage dec now m st = onmessage dec now m' st"
  by (simp add: onmessage_def onmessage_begin_cong[OF assms] onmessage_resume_cong[OF assms(2)]
      split: begun.splits)

lemma onmessage_no_payload:
  "base64Audio m = None \<Longrightarrow> onmessage dec now m st = Done (handle_interruption m st)"
  by (simp add: onmessage_def onmessage_begin_def)

lemma started_handle_interruption:
  "started (effects (handle_interruption m st)) = started (effects st)"
proof -
  have "started (map SourceStop xs) = []" for xs by (induction xs) auto
  then show ?thesis by (simp add: handle_interruption_def emit_def started_append)
qed

subsection \<open>The Playback Scheduler\<close>

text \<open>
  C1, as the code has it. Take any events in which no message carries the interruption
  flag: messages received at any times, and the awaits of their handlers settling in any
  order, with decoded buffers of non-negative duration. On receipt a handler sets
  \<open>nextStartTime\<close> to the maximum of \<open>nextStartTime\<close> and the device time; when its await
  settles it starts its buffer at the value \<open>nextStartTime\<close> has then, and advances
  \<open>nextStartTime\<close> by the buffer's duration. So every buffer starts no earlier than the
  start plus the duration of the buffer started before it, and no earlier than the time
  at which its message was received. When every await settles before the next message is
  received, the starts are those of the specification's algorithm: the maximum of
  \<open>nextStartTime\<close> and the device time at receipt, chained by the durations.
\<close>

theorem playback_schedule_no_overlap:
  assumes "\<forall>e \<in> set evs. \<not> flagged e"
    and "\<forall>b64 b. dec b64 = Some b \<longrightarrow> 0 \<le> duration b"
  shows "(let w = run dec evs (idle st);
              played = drop (length (started (effects st))) (started (effects (session w)))
          in (\<forall>k. Suc k < length played \<longrightarrow>
                 fst (played ! k) + duration (snd (played ! k)) \<le> fst (played ! Suc k))
           \<and> length (served w) = length played
           \<and> (\<forall>k < length played.
                 fst (served w ! k) \<le> fst (played ! k)
                 \<and> dec (snd (served w ! k)) = Some (snd (played ! k)))
           \<and> (\<forall>ms. evs = serial ms \<and> outputContextRef st \<noteq> None
                    \<and> (\<forall>m \<in> set ms. arrival dec m \<noteq> None)
                 \<longrightarrow> played = spec_schedule (nextStartTimeRef st) (List.map_filter (arrival dec) ms)
                   \<and> nextStartTimeRef (session w)
                       = spec_clock (nextStartTimeRef st) (List.map_filter (arrival dec) ms)))"
proof -
  let ?n = "length (started (effects st))"
  let ?w = "run dec evs (idle st)"
  let ?played = "drop ?n (started (effects (session ?w)))"
  have general: "(\<forall>k. Suc k < length ?played \<longrightarrow>
                 fst (?played ! k) + duration (snd (?played ! k)) \<le> fst (?played ! Suc k))
           \<and> length (served ?w) = length ?played
           \<and> (\<forall>k < length ?played.
                 fst (served ?w ! k) \<le> fst (?played ! k)
                 \<and> dec (snd (served ?w ! k)) = Some (snd (?played ! k)))"
    by (rule run_keeps_schedule[OF assms]) (simp_all add: idle_def)
  have in_turn: "?played = spec_schedule (nextStartTimeRef st) (List.map_filter (arrival dec) ms)
                   \<and> nextStartTimeRef (session ?w)
                       = spec_clock (nextStartTimeRef st) (List.map_filter (arrival dec) ms)"
    if ms: "evs = serial ms" and opened: "outputContextRef st \<noteq> None"
      and audio: "\<forall>m \<in> set ms. arrival dec m \<noteq> None" for ms
  proof -
    from opened obtain ctx where ctx: "outputContextRef (session (idle st)) = Some ctx"
      by (auto simp: idle_def)
    have p: "pending (idle st) = []" by (simp add: idle_def)
    from assms(1) ms have "\<forall>m \<in> set ms. \<not> is_interrupted (snd m)"
      by (simp add: serial_unflagged)
    with audio have "\<forall>m \<in> set ms. arrival dec m \<noteq> None \<and> \<not> is_interrupted (snd m)" by simp
    from run_serial[OF ctx p this] show ?thesis
      by (simp add: ms idle_def)
  qed
  from general in_turn show ?thesis
    unfolding Let_def by blast
qed

theorem playback_schedule_no_overlap_witness:
  "\<not> flagged (Message 1 (audio_message ''AAAA'')) \<and> \<not> flagged (Settle 0)
   \<and> three_seconds ''AAAA'' = Some \<lparr>duration = 3\<rparr> \<and> (0::real) \<le> duration \<lparr>duration = 3\<rparr>
   \<and> served (run three_seconds
        [Message 1 (audio_message ''AAAA''), Message 2 (audio_message ''AAAA''), Settle 0, Settle 0]
        (idle open_session)) = [(1, ''AAAA''), (2, ''AAAA'')]
   \<and> drop (length (started (effects open_session)))
       (started (effects (session (run three_seconds
        [Message 1 (audio_message ''AAAA''), Message 2 (audio_message ''AAAA''), Settle 0, Settle 0]
        (idle open_session)))))
      = [(2, \<lparr>duration = 3\<rparr>), (5, \<lparr>duration = 3\<rparr>)]
   \<and> drop (length (started (effects open_session)))
       (started (effects (session (run three_seconds
        (serial [(1, audio_message ''AAAA''), (2, audio_message ''AAAA'')])
        (idle open_session)))))
      = [(1, \<lparr>duration = 3\<rparr>), (4, \<lparr>duration = 3\<rparr>)]"
proof -
  have dur: "\<forall>b64 b. three_seconds b64 = Some b \<longrightarrow> 0 \<le> duration b"
    by (auto simp: three_seconds_def)
  have unflagged: "\<forall>e \<in> set [Message 1 (audio_message ''AAAA''), Message 2 (audio_message ''AAAA''),
                        Settle 0, Settle 0]. \<not> flagged e"
    by (simp add: audio_message_def is_interrupted_def)
  have unflagged': "\<forall>e \<in> set (serial [(1, audio_message ''AAAA''), (2, audio_message ''AAAA'')]).
                        \<not> flagged e"
    by (simp add: audio_message_def is_interrupted_def)
  have audio: "\<forall>m \<in> set [(1, audio_message ''AAAA''), (2, audio_message ''AAAA'')].
                 arrival three_seconds m \<noteq> None"
    by (simp add: arrival_def audio_message_def base64Audio_def first_part_def three_seconds_def)
  have "outputContextRef open_session \<noteq> None" by (simp add: open_session_eq)
  with playback_schedule_no_overlap[OF unflagged' dur, of open_session] audio
  have "drop (length (started (effects open_session)))
       (started (effects (session (run three_seconds
        (serial [(1, audio_message ''AAAA''), (2, audio_message ''AAAA'')])
        (idle open_session)))))
     = spec_schedule (nextStartTimeRef open_session)
         (List.map_filter (arrival three_seconds)
            [(1, audio_message ''AAAA''), (2, audio_message ''AAAA'')])"
    unfolding Let_def by blast
  then have in_turn: "drop (length (started (effects open_session)))
       (started (effects (session (run three_seconds
        (serial [(1, audio_message ''AAAA''), (2, audio_message ''AAAA'')])
        (idle open_session)))))
      = [(1, \<lparr>duration = 3\<rparr>), (4, \<lparr>duration = 3\<rparr>)]"
    by (simp add: map_filter_simps arrival_def audio_message_def base64Audio_def first_part_def
        three_seconds_def open_session_eq)
  from playback_schedule_no_overlap[OF unflagged dur, of open_session]
  have "length (served (run three_seconds
        [Message 1 (audio_message ''AAAA''), Message 2 (audio_message ''AAAA''), Settle 0, Settle 0]
        (idle open_session))) = length (drop (length (started (effects open_session)))
       (started (effects (session (run three_seconds
        [Message 1 (audio_message ''AAAA''), Message 2 (audio_message ''AAAA''), Settle 0, Settle 0]
        (idle open_session))))))"
    unfolding Let_def by blast
  with in_turn show ?thesis
    unfolding interleaved_run
    by (simp add: audio_message_def is_interrupted_def three_seconds_def open_session_eq started_append)
qed

text \<open>
  C1, as the claim states it, fails: with \<open>nextStartTime\<close> at 0, a buffer whose message is
  received at device time 1 is not started at the maximum of the two when a second
  message is received at time 2 before the first decode settles. The code starts the two
  buffers at 2 and 5.
\<close>

theorem interleaved_start_is_not_max:
  "started (new_effects open_session (session (run three_seconds
     [Message 1 (audio_message ''AAAA''), Message 2 (audio_message ''AAAA''), Settle 0, Settle 0]
     (idle open_session))))
     = [(2, \<lparr>duration = 3\<rparr>), (5, \<lparr>duration = 3\<rparr>)]
   \<and> max (nextStartTimeRef open_session) 1 \<noteq> 2"
  unfolding interleaved_run
  by (simp add: new_effects_def open_session_eq)

text \<open>
  C2, as the code has it. Let a message carry the interruption flag. Whenever its handler
  runs to its end (at once when it has no payload to decode, otherwise when its await
  settles with a decoded buffer, whatever ran in between), every source that is in the
  set at that moment, and the source the handler itself has just started, has been
  stopped, the set is empty and \<open>nextStartTime\<close> is 0; a buffer whose message is then
  received and decoded with nothing in between starts at the maximum of 0 and the device
  time. The handler runs to its end unless decoding its own payload throws.
\<close>

theorem interruption_clears_state:
  assumes "is_interrupted msg"
  shows "(\<forall>st'. onmessage_begin now msg st = Finished st'
              \<or> onmessage_resume decoded msg st = Done st'
              \<or> onmessage dec now msg st = Done st'
          \<longrightarrow> sourcesRef st' = [] \<and> nextStartTimeRef st' = 0
            \<and> (\<forall>s \<in> set (sourcesRef st). SourceStop s \<in> set (new_effects st st'))
            \<and> (\<forall>s t b. SourceStart s t b \<in> set (new_effects st st')
                   \<longrightarrow> SourceStop s \<in> set (new_effects st st'))
            \<and> (\<forall>dec' now' msg' b'.
                  outputContextRef st' \<noteq> None \<and> arrival dec' (now', msg') = Some (now', b')
                  \<and> \<not> is_interrupted msg'
                  \<longrightarrow> started (new_effects st' (state_of (onmessage dec' now' msg' st')))
                        = [(max 0 now', b')]))
       \<and> (base64Audio msg = None \<longrightarrow> onmessage_begin now msg st = Finished (handle_interruption msg st))
       \<and> (\<forall>b. \<exists>st'. onmessage_resume (Some b) msg st = Done st')
       \<and> onmessage_resume None msg st = Threw st"
proof -
  have main: "sourcesRef st' = [] \<and> nextStartTimeRef st' = 0
            \<and> (\<forall>s \<in> set (sourcesRef st). SourceStop s \<in> set (new_effects st st'))
            \<and> (\<forall>s t b. SourceStart s t b \<in> set (new_effects st st')
                   \<longrightarrow> SourceStop s \<in> set (new_effects st st'))
            \<and> (\<forall>dec' now' msg' b'.
                  outputContextRef st' \<noteq> None \<and> arrival dec' (now', msg') = Some (now', b')
                  \<and> \<not> is_interrupted msg'
                  \<longrightarrow> started (new_effects st' (state_of (onmessage dec' now' msg' st')))
                        = [(max 0 now', b')])"
    if h: "onmessage_begin now msg st = Finished st'
              \<or> onmessage_resume decoded msg st = Done st'
              \<or> onmessage dec now msg st = Done st'" for st'
  proof -
    note r = interrupted_result[OF assms h]
    have 1: "sourcesRef st' = [] \<and> nextStartTimeRef st' = 0" using r by simp
    have 2: "\<forall>s \<in> set (sourcesRef st). SourceStop s \<in> set (new_effects st st')"
      using r by auto
    have 3: "\<forall>s t b. SourceStart s t b \<in> set (new_effects st st')
                   \<longrightarrow> SourceStop s \<in> set (new_effects st st')"
      using r by auto
    have 4: "\<forall>dec' now' msg' b'.
          outputContextRef st' \<noteq> None \<and> arrival dec' (now', msg') = Some (now', b') \<and> \<not> is_interrupted msg'
          \<longrightarrow> started (new_effects st' (state_of (onmessage dec' now' msg' st'))) = [(max 0 now', b')]"
    proof (intro allI impI, elim conjE)
      fix dec' now' msg' b'
      assume "outputContextRef st' \<noteq> None" and a: "arrival dec' (now', msg') = Some (now', b')" and ni: "\<not> is_interrupted msg'"
      then obtain ctx where "outputContextRef st' = Some ctx" by auto
      from onmessage_schedules[OF a ni this] 1
      show "started (new_effects st' (state_of (onmessage dec' now' msg' st'))) = [(max 0 now', b')]"
        by (simp add: new_effects_def)
    qed
    from 1 2 3 4 show ?thesis by blast
  qed
  have a: "base64Audio msg = None \<longrightarrow> onmessage_begin now msg st = Finished (handle_interruption msg st)"
    by (simp add: onmessage_begin_def)
  have b: "\<forall>b. \<exists>st'. onmessage_resume (Some b) msg st = Done st'"
    by (simp add: onmessage_resume_def Let_def)
  have c: "onmessage_resume None msg st = Threw st" by (simp add: onmessage_resume_def)
  from main a b c show ?thesis by blast
qed

theorem interruption_clears_state_witness:
  "is_interrupted interruption_message
   \<and> onmessage_begin 2 interruption_message playing_session
       = Finished (playing_session\<lparr>effects := effects playing_session @ [SourceStop 5],
                                   sourcesRef := [], nextStartTimeRef := 0\<rparr>)
   \<and> SourceStop 5 \<in> set (new_effects playing_session
        (playing_session\<lparr>effects := effects playing_session @ [SourceStop 5],
                                   sourcesRef := [], nextStartTimeRef := 0\<rparr>))"
proof -
  have i: "is_interrupted interruption_message"
    by (simp add: interruption_message_def is_interrupted_def)
  have b: "onmessage_begin 2 interruption_message playing_session
       = Finished (playing_session\<lparr>effects := effects playing_session @ [SourceStop 5],
                                   sourcesRef := [], nextStartTimeRef := 0\<rparr>)"
    by (simp add: playing_session_eq onmessage_begin_def handle_interruption_def emit_def
        interruption_message_def base64Audio_def is_interrupted_def)
  have m: "5 \<in> set (sourcesRef playing_session)" by (simp add: playing_session_eq)
  from interruption_clears_state[OF i, of 2 playing_session] b m
  have "SourceStop 5 \<in> set (new_effects playing_session
        (playing_session\<lparr>effects := effects playing_session @ [SourceStop 5],
                                   sourcesRef := [], nextStartTimeRef := 0\<rparr>))"
    by blast
  with i b show ?thesis by simp
qed

text \<open>
  C2, as the claim states it, fails: a message that carries the interruption flag and a
  payload that does not decode is dropped before the interruption branch. Source 5 stays
  in the set and is not stopped, and \<open>nextStartTime\<close> is 9, not 0.
\<close>

theorem interruption_lost_with_bad_payload:
  "is_interrupted (interrupting_audio_message ''!!'')
   \<and> onmessage_begin 9 (interrupting_audio_message ''!!'') playing_session
       = Suspended ''!!'' (playing_session\<lparr>nextStartTimeRef := 9\<rparr>)
   \<and> onmessage_resume None (interrupting_audio_message ''!!'') (playing_session\<lparr>nextStartTimeRef := 9\<rparr>)
       = Threw (playing_session\<lparr>nextStartTimeRef := 9\<rparr>)
   \<and> sourcesRef (playing_session\<lparr>nextStartTimeRef := 9\<rparr>) = [5]
   \<and> nextStartTimeRef (playing_session\<lparr>nextStartTimeRef := 9\<rparr>) \<noteq> 0
   \<and> new_effects playing_session (playing_session\<lparr>nextStartTimeRef := 9\<rparr>) = []"
  by (simp add: playing_session_eq onmessage_begin_def onmessage_resume_def
      interrupting_audio_message_def base64Audio_def first_part_def is_interrupted_def
      new_effects_def)

subsection \<open>Teardown\<close>

text \<open>
  C3, evaluated on the code. \<open>stopSession\<close> closes the output context but leaves
  \<open>outputContextRef\<close> set, so the guard of \<open>onmessage\<close> still passes: an audio message
  handled after \<open>stopSession\<close> is decoded, a source is started for it and registered. A
  captured window handled after \<open>stopSession\<close> is still sent on the transport.
\<close>

theorem message_after_stop_is_scheduled:
  "outputContextRef (stopSession open_session) = Some 2
   \<and> new_effects (stopSession open_session)
        (state_of (onmessage (\<lambda>b64. Some \<lparr>duration = 3\<rparr>) 9 (audio_message ''AAAA'')
           (stopSession open_session)))
      = [SourceStart 5 9 \<lparr>duration = 3\<rparr>]
   \<and> sourcesRef (state_of (onmessage (\<lambda>b64. Some \<lparr>duration = 3\<rparr>) 9 (audio_message ''AAAA'')
           (stopSession open_session))) = [5]
   \<and> new_effects (stopSession open_session)
        (onaudioprocess 3 random inputData (stopSession open_session))
      = [SendRealtimeInput 3 (PcmBlob inputData), SetVisualizerData]"
  by (simp add: stopSession_open_session onmessage_def onmessage_begin_def onmessage_resume_def
      handle_interruption_def emit_def audio_message_def base64Audio_def first_part_def
      is_interrupted_def new_effects_def onaudioprocess_def Let_def)

text \<open>
  C4, evaluated on the code. \<open>stopSession\<close> never clears the references to the stream,
  the two audio contexts and the timer, so a second call repeats every release call but
  the close of the session. When \<open>stopSession\<close> runs while \<open>getUserMedia\<close> is pending,
  the stream that arrives afterwards is kept, its tracks are never stopped, and the
  connection is opened on the closed contexts.
\<close>

theorem stop_twice_releases_twice:
  "new_effects open_session (stopSession (stopSession open_session))
     = [SessionClose 3, TrackStop 7, TrackStop 8, ContextClose 1, ContextClose 2, ClearInterval 4,
        TrackStop 7, TrackStop 8, ContextClose 1, ContextClose 2, ClearInterval 4]
   \<and> streamRef (stopSession st) = streamRef st
   \<and> inputContextRef (stopSession st) = inputContextRef st
   \<and> outputContextRef (stopSession st) = outputContextRef st
   \<and> frameIntervalRef (stopSession st) = frameIntervalRef st
   \<and> new_effects mounted (startSession_resume (Inr [7, 8]) (stopSession (startSession_setup mounted)))
     = [NewAudioContext 1 16000, NewAudioContext 2 24000, GetUserMedia,
        ContextClose 1, ContextClose 2, VideoPlay [7, 8], Connect 3]
   \<and> streamRef (startSession_resume (Inr [7, 8]) (stopSession (startSession_setup mounted))) = Some [7, 8]
   \<and> sessionRef (startSession_resume (Inr [7, 8]) (stopSession (startSession_setup mounted))) = Some 3"
proof -
  have 1: "new_effects open_session (stopSession (stopSession open_session))
     = [SessionClose 3, TrackStop 7, TrackStop 8, ContextClose 1, ContextClose 2, ClearInterval 4,
        TrackStop 7, TrackStop 8, ContextClose 1, ContextClose 2, ClearInterval 4]"
    unfolding stopSession_open_session
    by (simp add: open_session_eq stopSession_def emit_def new_effects_def Let_def)
  have 2: "streamRef (stopSession st) = streamRef st
   \<and> inputContextRef (stopSession st) = inputContextRef st
   \<and> outputContextRef (stopSession st) = outputContextRef st
   \<and> frameIntervalRef (stopSession st) = frameIntervalRef st"
    by (simp add: stopSession_def emit_def Let_def split: option.splits)
  have 3: "startSession_resume (Inr [7, 8]) (stopSession (startSession_setup mounted)) =
     \<lparr>isConnected = False, error = None, visualizerData = replicate 10 10,
     videoRef = True, canvasRef = True, streamRef = Some [7, 8],
     inputContextRef = Some 1, outputContextRef = Some 2,
     nextStartTimeRef = 0, sourcesRef = [], sessionRef = Some 3,
     frameIntervalRef = None, randomCalls = 0, fresh = 4,
     effects =
       [NewAudioContext 1 16000, NewAudioContext 2 24000, GetUserMedia,
        ContextClose 1, ContextClose 2, VideoPlay [7, 8], Connect 3]\<rparr>"
    by (simp add: stopSession_def emit_def Let_def
       startSession_resume_def startSession_setup_def mounted_def)
  show ?thesis
    unfolding 3 using 1 2 by (simp add: new_effects_def mounted_def)
qed

subsection \<open>Starting a session\<close>

text \<open>
  C7, evaluated on the code. When \<open>getUserMedia\<close> is rejected, the error is logged, the
  fixed failure text becomes the observable error, and no connection is made; but the two
  audio contexts created before the \<open>await\<close> are not closed and stay referenced.
\<close>

theorem failed_acquisition_leaves_contexts_open:
  "new_effects st (startSession (Inl err) st)
     = [NewAudioContext (fresh st) 16000, NewAudioContext (Suc (fresh st)) 24000,
        GetUserMedia, ConsoleError err]
   \<and> error (startSession (Inl err) st) = Some ''Failed to access media devices or connect.''
   \<and> sessionRef (startSession (Inl err) st) = sessionRef st
   \<and> isConnected (startSession (Inl err) st) = isConnected st
   \<and> streamRef (startSession (Inl err) st) = streamRef st
   \<and> inputContextRef (startSession (Inl err) st) = Some (fresh st)
   \<and> outputContextRef (startSession (Inl err) st) = Some (Suc (fresh st))"
  by (simp add: startSession_def startSession_setup_def startSession_resume_def emit_def
      new_effects_def Let_def)

text \<open>
  C9. Every call of \<open>startSession\<close> sets \<open>nextStartTime\<close> to 0 in its setup, before
  \<open>getUserMedia\<close> is awaited and so before the connection whose messages schedule
  playback exists; the rest of \<open>startSession\<close> leaves the clock alone and starts no
  source.
\<close>

theorem startSession_resets_clock:
  "nextStartTimeRef (startSession_setup st) = 0
   \<and> nextStartTimeRef (startSession_resume got st) = nextStartTimeRef st
   \<and> nextStartTimeRef (startSession got st) = 0
   \<and> started (effects (startSession got st)) = started (effects st)"
  by (cases got)
     (simp_all add: startSession_def startSession_setup_def startSession_resume_def emit_def
        Let_def started_append)

subsection \<open>Inbound messages\<close>

text \<open>
  C10. \<open>onmessage\<close> reads the first part of the model turn only: whatever parts follow
  it, the handler does what it does for the first part alone. When the first part has no
  inline data, nothing is decoded and no source is started, even if a later part carries
  audio.
\<close>

theorem only_first_part_examined:
  "onmessage dec now
      \<lparr>serverContent = Some \<lparr>modelTurn = Some \<lparr>parts = Some (p # later)\<rparr>, interrupted = i\<rparr>\<rparr> st
     = onmessage dec now
      \<lparr>serverContent = Some \<lparr>modelTurn = Some \<lparr>parts = Some [p]\<rparr>, interrupted = i\<rparr>\<rparr> st
   \<and> (inlineData p = None \<longrightarrow>
        onmessage dec now
          \<lparr>serverContent = Some \<lparr>modelTurn = Some \<lparr>parts = Some (p # later)\<rparr>, interrupted = i\<rparr>\<rparr> st
        = Done (handle_interruption
          \<lparr>serverContent = Some \<lparr>modelTurn = Some \<lparr>parts = Some (p # later)\<rparr>, interrupted = i\<rparr>\<rparr> st)
        \<and> started (effects (state_of (onmessage dec now
          \<lparr>serverContent = Some \<lparr>modelTurn = Some \<lparr>parts = Some (p # later)\<rparr>, interrupted = i\<rparr>\<rparr> st)))
          = started (effects st))"
proof -
  let ?m = "\<lparr>serverContent = Some \<lparr>modelTurn = Some \<lparr>parts = Some (p # later)\<rparr>, interrupted = i\<rparr>\<rparr>"
  let ?m1 = "\<lparr>serverContent = Some \<lparr>modelTurn = Some \<lparr>parts = Some [p]\<rparr>, interrupted = i\<rparr>\<rparr>"
  have "onmessage dec now ?m st = onmessage dec now ?m1 st"
    by (rule onmessage_cong) (simp_all add: base64Audio_first_part is_interrupted_def)
  moreover have "onmessage dec now ?m st = Done (handle_interruption ?m st)
        \<and> started (effects (state_of (onmessage dec now ?m st))) = started (effects st)"
    if "inlineData p = None"
  proof -
    have "base64Audio ?m = None" using that by (simp add: base64Audio_first_part)
    then have "onmessage dec now ?m st = Done (handle_interruption ?m st)"
      by (rule onmessage_no_payload)
    then show ?thesis by (simp add: started_handle_interruption)
  qed
  ultimately show ?thesis by blast
qed

theorem only_first_part_examined_witness:
  "inlineData \<lparr>inlineData = None\<rparr> = None
   \<and> onmessage (\<lambda>b64. Some \<lparr>duration = 3\<rparr>) 9
       \<lparr>serverContent = Some \<lparr>modelTurn = Some \<lparr>parts = Some
          [\<lparr>inlineData = None\<rparr>, \<lparr>inlineData = Some \<lparr>data = Some ''AAAA'', mimeType = None\<rparr>\<rparr>]\<rparr>,
          interrupted = None\<rparr>\<rparr> open_session
     = Done open_session"
proof -
  have none: "inlineData \<lparr>inlineData = None\<rparr> = None" by simp
  from only_first_part_examined [of "\<lambda>b64. Some \<lparr>duration = 3\<rparr>" 9 "\<lparr>inlineData = None\<rparr>"
      "[\<lparr>inlineData = Some \<lparr>data = Some ''AAAA'', mimeType = None\<rparr>\<rparr>]" None open_session] none
  have "onmessage (\<lambda>b64. Some \<lparr>duration = 3\<rparr>) 9
       \<lparr>serverContent = Some \<lparr>modelTurn = Some \<lparr>parts = Some
          [\<lparr>inlineData = None\<rparr>, \<lparr>inlineData = Some \<lparr>data = Some ''AAAA'', mimeType = None\<rparr>\<rparr>]\<rparr>,
          interrupted = None\<rparr>\<rparr> open_session
     = Done (handle_interruption
       \<lparr>serverContent = Some \<lparr>modelTurn = Some \<lparr>parts = Some
          [\<lparr>inlineData = None\<rparr>, \<lparr>inlineData = Some \<lparr>data = Some ''AAAA'', mimeType = None\<rparr>\<rparr>]\<rparr>,
          interrupted = None\<rparr>\<rparr> open_session)"
    by blast
  then show ?thesis
    by (simp add: handle_interruption_def is_interrupted_def)
qed

text \<open>
  C6, as the code has it. A transport error puts the fixed text \<open>Connection error.\<close> in
  the observable error cell and marks the session as not connected, from any state; the
  transport's own message goes to the console only.
\<close>

theorem onerror_fixed_text:
  "error (onerror e st) = Some ''Connection error.''
   \<and> isConnected (onerror e st) = False
   \<and> effects (onerror e st) = effects st @ [ConsoleError e]"
  by (simp add: onerror_def emit_def)

text \<open>
  C6, as the claim states it, fails: after a transport error with the message
  \<open>socket closed\<close> the observable error is not that message.
\<close>

theorem onerror_message_not_preserved:
  "error (onerror ''socket closed'' mounted) \<noteq> Some ''socket closed''"
  by (simp add: onerror_def emit_def)

subsection \<open>Capture\<close>

text \<open>
  C8. For a captured window (not empty) and a vector of 10 bars, \<open>onaudioprocess\<close>
  sends the window and updates the vector once: the vector keeps its 10 bars, and bar
  \<open>i\<close> becomes a draw of its own from \<open>Math.random\<close>, times 20, plus 500 times the mean
  absolute value of the window.
\<close>

theorem visualizer_updated_once_per_window:
  assumes "inputData \<noteq> []" and "length (visualizerData st) = 10"
  shows "(let st' = onaudioprocess sessionPromise random inputData st
          in length (visualizerData st') = 10
           \<and> (\<forall>i < 10. visualizerData st' ! i
                          = random (randomCalls st + i) * 20 + mean_abs inputData * 500)
           \<and> randomCalls st' = randomCalls st + 10
           \<and> new_effects st st' = [SendRealtimeInput sessionPromise (PcmBlob inputData), SetVisualizerData])"
  using assms
  by (simp add: onaudioprocess_def emit_def Let_def new_effects_def volume_of_mean_abs)

theorem visualizer_updated_once_per_window_witness:
  "[1/2, - 1/2] \<noteq> ([] :: number list) \<and> length (visualizerData mounted) = 10
   \<and> visualizerData (onaudioprocess 3 (\<lambda>n. 1/4) [1/2, - 1/2] mounted) ! 0 = 255"
  using visualizer_updated_once_per_window [of "[1/2, - 1/2]" mounted 3 "\<lambda>n. 1/4"]
  by (simp add: mounted_def mean_abs_def Let_def)

subsection \<open>The PCM codec\<close>

text \<open>
  C5. Let the scaling factor be at least 32768 and let the rounding give an integer
  between the floor and the ceiling of its argument. Then, for every sequence of samples,
  decoding the encoded bytes succeeds and gives back exactly the quantized values. Every
  quantized value lies in the range of a signed 16-bit integer and is the rounded product
  of sample and factor whenever that lies in the range; every sample of 1 or more becomes
  the largest value 32767 and every sample of -1 or less the smallest value -32768.
\<close>

theorem pcm_round_trip:
  assumes "32768 \<le> factor" and "\<forall>y. \<lfloor>y\<rfloor> \<le> rounding y \<and> rounding y \<le> \<lceil>y\<rceil>"
  shows "decode (encode factor rounding s) = Inr (map (quantize factor rounding) s)
   \<and> length (encode factor rounding s) = 2 * length s
   \<and> (\<forall>x. - 32768 \<le> sint (quantize factor rounding x) \<and> sint (quantize factor rounding x) \<le> 32767)
   \<and> (\<forall>x. - 32768 \<le> rounding (x * factor) \<and> rounding (x * factor) \<le> 32767
          \<longrightarrow> sint (quantize factor rounding x) = rounding (x * factor))
   \<and> (\<forall>x. 1 \<le> x \<longrightarrow> sint (quantize factor rounding x) = 32767)
   \<and> (\<forall>x. x \<le> - 1 \<longrightarrow> sint (quantize factor rounding x) = - 32768)"
proof -
  have hi: "sint (quantize factor rounding x) = 32767" if "1 \<le> x" for x
  proof -
    from assms(2) have "\<lfloor>x * factor\<rfloor> \<le> rounding (x * factor)" by simp
    from scaled_high[of factor x rounding, OF assms(1) this that] show ?thesis
      by (simp add: sint_quantize clamp16_def)
  qed
  have lo: "sint (quantize factor rounding x) = - 32768" if "x \<le> - 1" for x
  proof -
    from assms(2) have "rounding (x * factor) \<le> \<lceil>x * factor\<rceil>" by simp
    from scaled_low[of factor rounding x, OF assms(1) this that] show ?thesis
      by (simp add: sint_quantize clamp16_def)
  qed
  have range: "- 32768 \<le> sint (quantize factor rounding x) \<and> sint (quantize factor rounding x) \<le> 32767" for x
    by (simp add: sint_quantize clamp16_def)
  have mid: "sint (quantize factor rounding x) = rounding (x * factor)"
    if "- 32768 \<le> rounding (x * factor) \<and> rounding (x * factor) \<le> 32767" for x
    using that by (simp add: sint_quantize clamp16_def)
  from hi lo range mid show ?thesis
    by (simp add: decode_encode length_encode)
qed

theorem pcm_round_trip_witness:
  "(32768::real) \<le> 32768
   \<and> decode (encode 32768 floor [3/2, - 2, 1/4]) = Inr [32767, - 32768, 8192]
   \<and> sint (quantize 32768 floor (3/2)) = 32767
   \<and> sint (quantize 32768 floor (- 2)) = - 32768"
proof -
  have f: "(32768::real) \<le> 32768" by simp
  have r: "\<forall>y::real. \<lfloor>y\<rfloor> \<le> floor y \<and> floor y \<le> \<lceil>y\<rceil>" by (simp add: floor_le_ceiling)
  from pcm_round_trip[OF f r, of "[3/2, - 2, 1/4]"]
  have "decode (encode 32768 floor [3/2, - 2, 1/4]) = Inr (map (quantize 32768 floor) [3/2, - 2, 1/4])
      \<and> sint (quantize 32768 floor (3/2)) = 32767
      \<and> sint (quantize 32768 floor (- 2)) = - 32768"
    by simp
  then show ?thesis by (simp add: quantize_def clamp16_def)
qed

end
